theory Spec2Isabelle
  imports Main
begin

section \<open>The submission entity\<close>

text \<open>
  The entity of \<^verbatim>\<open>entities/submission.entity.ts\<close>. The primary key is a generated
  uuid; here it is a natural number drawn from a counter, so that a fresh key is fresh.
  \<^verbatim>\<open>retryCount\<close> starts at 0 and is only ever incremented, \<^verbatim>\<open>maxRetries\<close>
  defaults to 3; both are naturals. The columns \<^verbatim>\<open>createdAt\<close> and
  \<^verbatim>\<open>updatedAt\<close> are maintained by the database alone and no code of the submitter
  reads them; they are left out. A payload is a JSON object, kept as a list of fields.
\<close>

datatype SubmissionStatus = PENDING | PROCESSING | COMPLETED | FAILED | RETRYING

type_synonym payload = "(string \<times> string) list"

record Submission =
  id' :: nat
  idempotencyKey :: string
  payload :: payload
  status :: SubmissionStatus
  transactionHash :: "string option"
  retryCount :: nat
  maxRetries :: nat
  errorMessage :: "string option"
  completedAt :: "nat option"

record CreateSubmissionDto =
  idempotencyKey' :: string
  payload' :: payload

section \<open>Repository, queue and ledger\<close>

text \<open>
  The repository is the table of rows in insertion order. The queue is the list of jobs
  added so far. \<^verbatim>\<open>ledgerCalls\<close> records every payload handed to
  \<^verbatim>\<open>StellarService.submitTransaction\<close>, so that "no ledger call" can be stated.
\<close>

datatype Job = SubmitSingle nat | SubmitBatch "nat list"

record Env =
  repository :: "Submission list"
  queue :: "Job list"
  ledgerCalls :: "payload list"
  nextId :: nat

text \<open>
  The exceptions the submitter throws: \<^verbatim>\<open>ConflictException\<close> with its message,
  \<^verbatim>\<open>NotFoundException\<close> with the id its message names, and the plain
  \<^verbatim>\<open>Error\<close> of the retry branch with the delay its message names.
\<close>

datatype exn =
    ConflictException string
  | NotFoundException nat
  | RetryNeeded nat

definition findOneById :: "nat \<Rightarrow> Submission list \<Rightarrow> Submission option" where
  "findOneById i rows = find (\<lambda>s. id' s = i) rows"

definition findOneByKey :: "string \<Rightarrow> Submission list \<Rightarrow> Submission option" where
  "findOneByKey k rows = find (\<lambda>s. idempotencyKey s = k) rows"

definition findByIds :: "nat list \<Rightarrow> Submission list \<Rightarrow> Submission list" where
  "findByIds ids rows = filter (\<lambda>s. id' s \<in> set ids) rows"

text \<open>\<^verbatim>\<open>save\<close> of a loaded entity writes the row with its primary key.\<close>

definition save :: "Submission \<Rightarrow> Submission list \<Rightarrow> Submission list" where
  "save s rows = map (\<lambda>r. if id' r = id' s then s else r) rows"

section \<open>SubmitterService\<close>

text \<open>
  The entity that \<^verbatim>\<open>create\<close> builds from the key, the payload and the status
  \<^verbatim>\<open>PENDING\<close>, as the insert of \<^verbatim>\<open>save\<close> completes it: the generated
  primary key and the column defaults.
\<close>

definition createEntity :: "nat \<Rightarrow> CreateSubmissionDto \<Rightarrow> Submission" where
  "createEntity i dto =
    \<lparr>id' = i, idempotencyKey = idempotencyKey' dto, payload = payload' dto,
     status = PENDING, transactionHash = None, retryCount = 0, maxRetries = 3,
     errorMessage = None, completedAt = None\<rparr>"

text \<open>
  \<^verbatim>\<open>createSubmission\<close>: look the key up; throw \<^verbatim>\<open>ConflictException\<close> with a
  message when a row has it; otherwise create the entity, insert it and add one
  \<^verbatim>\<open>submit-single\<close> job with its id.
\<close>

definition createSubmission :: "CreateSubmissionDto \<Rightarrow> Env \<Rightarrow> Env \<times> (exn + Submission)" where
  "createSubmission dto env =
    (case findOneByKey (idempotencyKey' dto) (repository env) of
       Some existing \<Rightarrow>
         (env, Inl (ConflictException
            (''Submission with idempotency key '' @ idempotencyKey' dto @ '' already exists'')))
     | None \<Rightarrow>
         (let submission = createEntity (nextId env) dto;
              env1 = env\<lparr>repository := repository env @ [submission], nextId := Suc (nextId env)\<rparr>;
              env2 = env1\<lparr>queue := queue env1 @ [SubmitSingle (id' submission)]\<rparr>
          in (env2, Inr submission)))"

definition getSubmission :: "nat \<Rightarrow> Env \<Rightarrow> exn + Submission" where
  "getSubmission i env =
    (case findOneById i (repository env) of
       None \<Rightarrow> Inl (NotFoundException i)
     | Some submission \<Rightarrow> Inr submission)"

text \<open>\<^verbatim>\<open>getByIdempotencyKey\<close> returns what \<^verbatim>\<open>findOne\<close> returns, null included.\<close>

definition getByIdempotencyKey :: "string \<Rightarrow> Env \<Rightarrow> Submission option" where
  "getByIdempotencyKey key env = findOneByKey key (repository env)"

definition listSubmissions :: "SubmissionStatus option \<Rightarrow> Env \<Rightarrow> Submission list" where
  "listSubmissions st env =
    (case st of
       Some s \<Rightarrow> filter (\<lambda>r. status r = s) (repository env)
     | None \<Rightarrow> take 100 (repository env))"

text \<open>
  The loop of \<^verbatim>\<open>createBatch\<close>: an exception of \<^verbatim>\<open>createSubmission\<close> is not
  caught, so it ends the loop and the call.
\<close>

fun createEach :: "CreateSubmissionDto list \<Rightarrow> Submission list \<Rightarrow> Env \<Rightarrow> Env \<times> (exn + Submission list)" where
  "createEach [] submissions env = (env, Inr submissions)"
| "createEach (dto # dtos) submissions env =
    (case createSubmission dto env of
       (env', Inl e) \<Rightarrow> (env', Inl e)
     | (env', Inr submission) \<Rightarrow> createEach dtos (submissions @ [submission]) env')"

definition createBatch :: "CreateSubmissionDto list \<Rightarrow> Env \<Rightarrow> Env \<times> (exn + Submission list)" where
  "createBatch dtos env =
    (case createEach dtos [] env of
       (env', Inl e) \<Rightarrow> (env', Inl e)
     | (env', Inr submissions) \<Rightarrow>
         (env'\<lparr>queue := queue env' @ [SubmitBatch (map id' submissions)]\<rparr>, Inr submissions))"

section \<open>StellarService\<close>

text \<open>
  Signing and the network are outside the repository: the answer of the ledger to a call
  is a parameter, \<open>Inr hash\<close> or \<open>Inl message\<close> for a thrown error.
  \<^verbatim>\<open>submitBatch\<close> calls \<^verbatim>\<open>submitTransaction\<close> once per payload, in order, and
  pushes the hash or, in its catch, null; \<open>ledger k\<close> answers the \<open>k\<close>-th call.
\<close>

fun submitBatch :: "(nat \<Rightarrow> string + string) \<Rightarrow> nat \<Rightarrow> payload list \<Rightarrow> string option list" where
  "submitBatch ledger k [] = []"
| "submitBatch ledger k (p # ps) =
    (case ledger k of Inr hash \<Rightarrow> Some hash | Inl message \<Rightarrow> None) # submitBatch ledger (Suc k) ps"

section \<open>SubmissionProcessor\<close>

definition backoffDelay :: "nat \<Rightarrow> nat" where
  "backoffDelay r = 2 ^ r * 1000"

text \<open>
  The catch block of \<^verbatim>\<open>handleSingleSubmission\<close> up to its branch: the mutated
  object, and the delay of the error it throws in the retry branch.
\<close>

definition recordFailure :: "string \<Rightarrow> Submission \<Rightarrow> Submission \<times> nat option" where
  "recordFailure message submission =
    (let s = submission\<lparr>retryCount := retryCount submission + 1, errorMessage := Some message\<rparr>
     in if retryCount s \<ge> maxRetries s
        then (s\<lparr>status := FAILED\<rparr>, None)
        else (s\<lparr>status := RETRYING\<rparr>, Some (backoffDelay (retryCount s))))"

text \<open>
  \<^verbatim>\<open>handleSingleSubmission\<close>. An unknown id is logged and the handler returns. The
  status is set to \<^verbatim>\<open>PROCESSING\<close> and saved whatever it was; then the ledger is
  called. In the retry branch of the catch block the error is thrown before the last
  \<^verbatim>\<open>save\<close>, which only the other branch reaches. The database itself is taken
  not to fail, so the ledger call is the only statement of the try block that throws.
\<close>

definition handleSingleSubmission :: "nat \<Rightarrow> (string + string) \<Rightarrow> nat \<Rightarrow> Env \<Rightarrow> Env \<times> (exn + unit)" where
  "handleSingleSubmission now ledger submissionId env =
    (case findOneById submissionId (repository env) of
       None \<Rightarrow> (env, Inr ())
     | Some submission \<Rightarrow>
         (let s1 = submission\<lparr>status := PROCESSING\<rparr>;
              env1 = env\<lparr>repository := save s1 (repository env),
                        ledgerCalls := ledgerCalls env @ [payload s1]\<rparr>
          in case ledger of
               Inr txHash \<Rightarrow>
                 (let s2 = s1\<lparr>status := COMPLETED, transactionHash := Some txHash,
                              completedAt := Some now\<rparr>
                  in (env1\<lparr>repository := save s2 (repository env1)\<rparr>, Inr ()))
             | Inl message \<Rightarrow>
                 (case recordFailure message s1 of
                    (s2, Some delay) \<Rightarrow> (env1, Inl (RetryNeeded delay))
                  | (s2, None) \<Rightarrow> (env1\<lparr>repository := save s2 (repository env1)\<rparr>, Inr ()))))"

text \<open>The test \<^verbatim>\<open>if (txHash)\<close>: null, undefined and the empty string are falsy.\<close>

definition truthy :: "string option \<Rightarrow> bool" where
  "truthy h = (case h of None \<Rightarrow> False | Some s \<Rightarrow> s \<noteq> [])"

definition updateFromHash :: "nat \<Rightarrow> string option \<Rightarrow> Submission \<Rightarrow> Submission" where
  "updateFromHash now txHash submission =
    (if truthy txHash
     then submission\<lparr>status := COMPLETED, transactionHash := txHash, completedAt := Some now\<rparr>
     else submission\<lparr>status := FAILED, errorMessage := Some ''Batch submission failed''\<rparr>)"

text \<open>The update loop of \<^verbatim>\<open>handleBatchSubmission\<close>; reading past the end of
  \<^verbatim>\<open>txHashes\<close> gives undefined.\<close>

fun updateEach :: "nat \<Rightarrow> Submission list \<Rightarrow> string option list \<Rightarrow> Submission list \<Rightarrow> Submission list" where
  "updateEach now [] txHashes rows = rows"
| "updateEach now (submission # submissions) txHashes rows =
    updateEach now submissions (tl txHashes)
      (save (updateFromHash now (case txHashes of [] \<Rightarrow> None | h # hs \<Rightarrow> h) submission) rows)"

text \<open>
  \<^verbatim>\<open>handleBatchSubmission\<close>. \<^verbatim>\<open>submitBatch\<close> catches every error of an item, so
  the handler's own catch is never entered and the handler returns.
\<close>

definition handleBatchSubmission :: "nat \<Rightarrow> (nat \<Rightarrow> string + string) \<Rightarrow> nat list \<Rightarrow> Env \<Rightarrow> Env \<times> (exn + unit)" where
  "handleBatchSubmission now ledger submissionIds env =
    (let submissions = findByIds submissionIds (repository env);
         payloads = map payload submissions;
         txHashes = submitBatch ledger 0 payloads
     in (env\<lparr>repository := updateEach now submissions txHashes (repository env),
             ledgerCalls := ledgerCalls env @ payloads\<rparr>, Inr ()))"

section \<open>Example states\<close>

definition env0 :: Env where
  "env0 = \<lparr>repository = [], queue = [], ledgerCalls = [], nextId = 0\<rparr>"

definition dto1 :: CreateSubmissionDto where
  "dto1 = \<lparr>idempotencyKey' = ''key-1'', payload' = [(''documentHash'', ''hash1'')]\<rparr>"

definition dto2 :: CreateSubmissionDto where
  "dto2 = \<lparr>idempotencyKey' = ''key-2'', payload' = [(''documentHash'', ''hash2'')]\<rparr>"

definition dto3 :: CreateSubmissionDto where
  "dto3 = \<lparr>idempotencyKey' = ''key-3'', payload' = [(''documentHash'', ''hash3'')]\<rparr>"

text \<open>One submission created and still pending; the same after a successful delivery.\<close>

definition envPending :: Env where
  "envPending = fst (createSubmission dto1 env0)"

definition envCompleted :: Env where
  "envCompleted = fst (handleSingleSubmission 5 (Inr ''tx-1'') 0 envPending)"

definition completedRow :: Submission where
  "completedRow = (createEntity 0 dto1)\<lparr>status := COMPLETED, transactionHash := Some ''tx-1'',
                                        completedAt := Some 5\<rparr>"

text \<open>A batch of three, and a ledger that answers the second call with an error.\<close>

definition envThree :: Env where
  "envThree = fst (createBatch [dto1, dto2, dto3] env0)"

definition ledgerSecondFails :: "nat \<Rightarrow> string + string" where
  "ledgerSecondFails k =
    (if k = 0 then Inr ''tx-a'' else if k = 1 then Inl ''op_failed'' else Inr ''tx-c'')"

section \<open>Vocabulary of the statements\<close>

text \<open>The entities a run of creations inserts, with consecutive keys.\<close>

fun createEntities :: "nat \<Rightarrow> CreateSubmissionDto list \<Rightarrow> Submission list" where
  "createEntities i [] = []"
| "createEntities i (dto # dtos) = createEntity i dto # createEntities (Suc i) dtos"

definition conflictMessage :: "CreateSubmissionDto \<Rightarrow> string" where
  "conflictMessage dto =
    ''Submission with idempotency key '' @ idempotencyKey' dto @ '' already exists''"

text \<open>The state after one creation, and after the creations of a list of requests: the
  new rows and one \<^verbatim>\<open>submit-single\<close> job for each.\<close>

definition inserted :: "CreateSubmissionDto \<Rightarrow> Env \<Rightarrow> Env" where
  "inserted dto env =
    env\<lparr>repository := repository env @ [createEntity (nextId env) dto],
        queue := queue env @ [SubmitSingle (nextId env)],
        nextId := Suc (nextId env)\<rparr>"

definition created :: "CreateSubmissionDto list \<Rightarrow> Env \<Rightarrow> Env" where
  "created dtos env =
    env\<lparr>repository := repository env @ createEntities (nextId env) dtos,
        queue := queue env @ map (\<lambda>s. SubmitSingle (id' s)) (createEntities (nextId env) dtos),
        nextId := nextId env + length dtos\<rparr>"

text \<open>
  The queue delivers a job again after its handler threw, and no more once the handler
  returned. \<open>failedDeliveries n\<close> is up to \<open>n\<close> deliveries of the
  \<^verbatim>\<open>submit-single\<close> job of one submission, the ledger failing at each; it gives the
  final state and what each delivery's handler did.
\<close>

fun failedDeliveries :: "nat \<Rightarrow> nat \<Rightarrow> string \<Rightarrow> nat \<Rightarrow> Env \<Rightarrow> Env \<times> (exn + unit) list" where
  "failedDeliveries 0 now message i env = (env, [])"
| "failedDeliveries (Suc n) now message i env =
    (case handleSingleSubmission now (Inl message) i env of
       (env', Inr u) \<Rightarrow> (env', [Inr u])
     | (env', Inl e) \<Rightarrow>
         (case failedDeliveries n now message i env' of (env'', rs) \<Rightarrow> (env'', Inl e # rs)))"

text \<open>Every completed row has a transaction hash.\<close>

definition completedHasHash :: "Submission list \<Rightarrow> bool" where
  "completedHasHash rows =
    list_all (\<lambda>s. status s = COMPLETED \<longrightarrow> transactionHash s \<noteq> None) rows"

section \<open>Facts about the repository\<close>

lemma findOneById_save:
  "findOneById i (save s rows) =
    (if i = id' s then (if findOneById i rows = None then None else Some s)
     else findOneById i rows)"
  by (induction rows) (auto simp: findOneById_def save_def)

lemma ids_save: "map id' (save s rows) = map id' rows"
  by (induction rows) (auto simp: save_def)

lemma save_save: "id' a = id' b \<Longrightarrow> save a (save b rows) = save a rows"
  by (induction rows) (auto simp: save_def)

lemma findOneById_None_iff: "findOneById i rows = None \<longleftrightarrow> i \<notin> set (map id' rows)"
  by (auto simp: findOneById_def find_None_iff)

lemma findOneById_Some_id: "findOneById i rows = Some s \<Longrightarrow> id' s = i"
  by (auto simp: findOneById_def find_Some_iff)

lemma findOneByKey_None_iff:
  "findOneByKey k rows = None \<longleftrightarrow> k \<notin> set (map idempotencyKey rows)"
  by (auto simp: findOneByKey_def find_None_iff)

lemma findByIds_distinct:
  "distinct (map id' rows) \<Longrightarrow> distinct (map id' (findByIds ids rows))"
  by (simp add: findByIds_def distinct_map_filter)

lemma findByIds_subset: "set (map id' (findByIds ids rows)) \<subseteq> set (map id' rows)"
  by (auto simp: findByIds_def)

lemma id_createEntity: "id' (createEntity i dto) = i"
  by (simp add: createEntity_def)

lemma id_updateFromHash: "id' (updateFromHash now h s) = id' s"
  by (simp add: updateFromHash_def)

section \<open>Facts about the example states\<close>

lemma envPending_eq:
  "envPending = \<lparr>repository = [createEntity 0 dto1], queue = [SubmitSingle 0],
                  ledgerCalls = [], nextId = 1\<rparr>"
  by (simp add: envPending_def createSubmission_def env0_def findOneByKey_def Let_def
      createEntity_def)

lemma envCompleted_eq:
  "envCompleted =
     \<lparr>repository = [completedRow], queue = [SubmitSingle 0], ledgerCalls = [payload' dto1],
      nextId = 1\<rparr>"
  by (simp add: envCompleted_def envPending_eq handleSingleSubmission_def findOneById_def
      save_def Let_def createEntity_def completedRow_def)


lemma envThree_eq:
  "envThree =
     \<lparr>repository = [createEntity 0 dto1, createEntity 1 dto2, createEntity 2 dto3],
      queue = [SubmitSingle 0, SubmitSingle 1, SubmitSingle 2, SubmitBatch [0, 1, 2]],
      ledgerCalls = [], nextId = 3\<rparr>"
  by (simp add: envThree_def env0_def createBatch_def createSubmission_def findOneByKey_def
      createEntity_def dto1_def dto2_def dto3_def Let_def)

section \<open>Facts about the service\<close>

lemma createSubmission_new:
  assumes "idempotencyKey' dto \<notin> set (map idempotencyKey (repository env))"
  shows "createSubmission dto env = (inserted dto env, Inr (createEntity (nextId env) dto))"
proof -
  have "findOneByKey (idempotencyKey' dto) (repository env) = None"
    using assms findOneByKey_None_iff [of "idempotencyKey' dto" "repository env"] by blast
  then show ?thesis
    by (simp add: createSubmission_def inserted_def createEntity_def Let_def)
qed

lemma createSubmission_existing:
  assumes "idempotencyKey' dto \<in> set (map idempotencyKey (repository env))"
  shows "createSubmission dto env = (env, Inl (ConflictException (conflictMessage dto)))"
proof -
  have "findOneByKey (idempotencyKey' dto) (repository env) \<noteq> None"
    using assms findOneByKey_None_iff [of "idempotencyKey' dto" "repository env"] by blast
  then show ?thesis
    by (auto simp: createSubmission_def conflictMessage_def split: option.splits)
qed

lemma created_Nil: "created [] env = env"
  by (simp add: created_def)

lemma created_Cons: "created (dto # dtos) env = created dtos (inserted dto env)"
  by (simp add: created_def inserted_def id_createEntity)

lemma keys_inserted:
  "idempotencyKey ` set (repository (inserted dto env))
     = insert (idempotencyKey' dto) (idempotencyKey ` set (repository env))"
  by (simp add: inserted_def createEntity_def)

lemma nextId_inserted: "nextId (inserted dto env) = Suc (nextId env)"
  by (simp add: inserted_def)

text \<open>The loop of \<^verbatim>\<open>createBatch\<close> on requests whose keys are new and pairwise
  different: every request is created.\<close>

lemma createEach_ok:
  "distinct (map idempotencyKey' dtos) \<Longrightarrow>
   set (map idempotencyKey' dtos) \<inter> set (map idempotencyKey (repository env)) = {} \<Longrightarrow>
   createEach dtos acc env = (created dtos env, Inr (acc @ createEntities (nextId env) dtos))"
proof (induction dtos arbitrary: acc env)
  case Nil
  show ?case by (simp add: created_Nil)
next
  case (Cons dto dtos)
  let ?env1 = "inserted dto env"
  have new: "createSubmission dto env = (?env1, Inr (createEntity (nextId env) dto))"
    using Cons.prems(2) by (intro createSubmission_new) auto
  have "createEach dtos (acc @ [createEntity (nextId env) dto]) ?env1
      = (created dtos ?env1,
         Inr ((acc @ [createEntity (nextId env) dto]) @ createEntities (nextId ?env1) dtos))"
    using Cons.prems by (intro Cons.IH) (auto simp: keys_inserted)
  then show ?case using new by (simp add: created_Cons nextId_inserted)
qed

text \<open>The loop stops at the first request whose key is taken, by a row or by an earlier
  request of the same batch.\<close>

lemma createEach_conflict:
  "distinct (map idempotencyKey' pre) \<Longrightarrow>
   set (map idempotencyKey' pre) \<inter> set (map idempotencyKey (repository env)) = {} \<Longrightarrow>
   idempotencyKey' dto \<in> set (map idempotencyKey' pre) \<union> set (map idempotencyKey (repository env)) \<Longrightarrow>
   createEach (pre @ dto # post) acc env
     = (created pre env, Inl (ConflictException (conflictMessage dto)))"
proof (induction pre arbitrary: acc env)
  case Nil
  then show ?case by (simp add: created_Nil createSubmission_existing)
next
  case (Cons d pre)
  let ?env1 = "inserted d env"
  have new: "createSubmission d env = (?env1, Inr (createEntity (nextId env) d))"
    using Cons.prems(2) by (intro createSubmission_new) auto
  have "createEach (pre @ dto # post) (acc @ [createEntity (nextId env) d]) ?env1
      = (created pre ?env1, Inl (ConflictException (conflictMessage dto)))"
    using Cons.prems by (intro Cons.IH) (auto simp: keys_inserted)
  then show ?case using new by (simp add: created_Cons)
qed

lemma getSubmission_unknown:
  "findOneById i (repository env) = None \<Longrightarrow> getSubmission i env = Inl (NotFoundException i)"
  by (simp add: getSubmission_def)

lemma getByIdempotencyKey_unknown:
  "findOneByKey key (repository env) = None \<Longrightarrow> getByIdempotencyKey key env = None"
  by (simp add: getByIdempotencyKey_def)

section \<open>Facts about the processor\<close>

lemma handleSingleSubmission_unknown:
  "findOneById i (repository env) = None \<Longrightarrow>
   handleSingleSubmission now ledger i env = (env, Inr ())"
  by (simp add: handleSingleSubmission_def)

lemma handleSingleSubmission_success:
  assumes "findOneById i (repository env) = Some s"
  shows "handleSingleSubmission now (Inr txHash) i env =
    (env\<lparr>repository :=
            save (s\<lparr>status := COMPLETED, transactionHash := Some txHash, completedAt := Some now\<rparr>)
              (save (s\<lparr>status := PROCESSING\<rparr>) (repository env)),
         ledgerCalls := ledgerCalls env @ [payload s]\<rparr>, Inr ())"
  using assms by (simp add: handleSingleSubmission_def Let_def)

text \<open>A failed delivery: the last write is the one of the branch that marks the row
  failed; the other branch leaves the row as the first \<^verbatim>\<open>save\<close> wrote it.\<close>

lemma handleSingleSubmission_failure:
  assumes "findOneById i (repository env) = Some s"
  shows "handleSingleSubmission now (Inl message) i env =
    (if maxRetries s \<le> retryCount s + 1
     then (env\<lparr>repository :=
                 save (s\<lparr>status := FAILED, retryCount := retryCount s + 1,
                         errorMessage := Some message\<rparr>)
                   (save (s\<lparr>status := PROCESSING\<rparr>) (repository env)),
               ledgerCalls := ledgerCalls env @ [payload s]\<rparr>, Inr ())
     else (env\<lparr>repository := save (s\<lparr>status := PROCESSING\<rparr>) (repository env),
               ledgerCalls := ledgerCalls env @ [payload s]\<rparr>,
           Inl (RetryNeeded (backoffDelay (retryCount s + 1)))))"
  using assms
  by (cases env, cases s) (simp add: handleSingleSubmission_def recordFailure_def Let_def)

lemma updateEach_other:
  "j \<notin> set (map id' subs) \<Longrightarrow>
   findOneById j (updateEach now subs hs rows) = findOneById j rows"
  by (induction subs arbitrary: hs rows) (auto simp: findOneById_save id_updateFromHash)

lemma length_submitBatch: "length (submitBatch ledger k ps) = length ps"
  by (induction ps arbitrary: k) auto

lemma nth_submitBatch:
  "i < length ps \<Longrightarrow>
   submitBatch ledger k ps ! i = (case ledger (k + i) of Inr hash \<Rightarrow> Some hash | Inl m \<Rightarrow> None)"
proof (induction ps arbitrary: k i)
  case Nil
  then show ?case by simp
next
  case (Cons p ps)
  then show ?case by (cases i) auto
qed

text \<open>After the update loop, the row of the \<open>i\<close>-th loaded submission is that submission
  updated from the \<open>i\<close>-th hash: the keys of the loaded submissions are pairwise
  different, so no later write replaces it.\<close>

lemma updateEach_nth:
  "distinct (map id' subs) \<Longrightarrow> i < length subs \<Longrightarrow> length hs = length subs \<Longrightarrow>
   id' (subs ! i) \<in> set (map id' rows) \<Longrightarrow>
   findOneById (id' (subs ! i)) (updateEach now subs hs rows)
     = Some (updateFromHash now (hs ! i) (subs ! i))"
proof (induction subs arbitrary: hs rows i)
  case Nil
  then show ?case by simp
next
  case (Cons s ss)
  obtain h hs' where hs: "hs = h # hs'" using Cons.prems(3) by (cases hs) auto
  show ?case
  proof (cases i)
    case 0
    have "id' s \<notin> set (map id' ss)" using Cons.prems(1) by simp
    then have "findOneById (id' s) (updateEach now ss hs' (save (updateFromHash now h s) rows))
        = findOneById (id' s) (save (updateFromHash now h s) rows)"
      by (rule updateEach_other)
    also have "\<dots> = Some (updateFromHash now h s)"
      using Cons.prems(4) 0 by (simp add: findOneById_save id_updateFromHash findOneById_None_iff)
    finally show ?thesis using 0 hs by simp
  next
    case (Suc k)
    have "findOneById (id' (ss ! k)) (updateEach now ss hs' (save (updateFromHash now h s) rows))
        = Some (updateFromHash now (hs' ! k) (ss ! k))"
      using Cons.prems Suc hs by (intro Cons.IH) (auto simp: ids_save)
    then show ?thesis using Suc hs by simp
  qed
qed

lemma completedHasHash_save:
  "completedHasHash rows \<Longrightarrow> (status s = COMPLETED \<longrightarrow> transactionHash s \<noteq> None) \<Longrightarrow>
   completedHasHash (save s rows)"
  by (induction rows) (auto simp: completedHasHash_def save_def)

lemma updateFromHash_completed:
  "status (updateFromHash now h s) = COMPLETED \<longrightarrow> transactionHash (updateFromHash now h s) \<noteq> None"
  by (cases h) (simp_all add: updateFromHash_def truthy_def)

lemma completedHasHash_updateEach:
  "completedHasHash rows \<Longrightarrow> completedHasHash (updateEach now subs hs rows)"
proof (induction subs arbitrary: hs rows)
  case Nil
  then show ?case by simp
next
  case (Cons s ss)
  have "completedHasHash (save (updateFromHash now (case hs of [] \<Rightarrow> None | h # x \<Rightarrow> h) s) rows)"
    using Cons.prems updateFromHash_completed by (rule completedHasHash_save)
  then show ?case using Cons.IH by simp
qed

section \<open>Creation and idempotency\<close>

text \<open>
  C1. \<^verbatim>\<open>createSubmission\<close> with a key that a stored submission already has signals
  the conflict, stores nothing and adds no job. Evaluated on the state with the
  submission of key \<^verbatim>\<open>key-1\<close>: the call throws \<^verbatim>\<open>ConflictException\<close>, whose
  only content is the message naming the key; the stored submission that the lookup
  found is not part of what the caller receives.
\<close>

theorem createSubmission_conflict_message_only:
  "findOneByKey ''key-1'' (repository envPending) = Some (createEntity 0 dto1)
   \<and> createSubmission \<lparr>idempotencyKey' = ''key-1'', payload' = [(''documentHash'', ''other'')]\<rparr>
        envPending
     = (envPending, Inl (ConflictException ''Submission with idempotency key key-1 already exists''))"
  by (simp add: envPending_eq createSubmission_def findOneByKey_def createEntity_def dto1_def)

section \<open>Terminal states and redelivery\<close>




section \<open>Failed deliveries\<close>

text \<open>
  C3. A failed delivery of a fresh submission (\<^verbatim>\<open>retryCount\<close> 0, \<^verbatim>\<open>maxRetries\<close> 3):
  the catch block sets \<^verbatim>\<open>retryCount\<close> 1, the message and \<^verbatim>\<open>RETRYING\<close> on the
  object it holds, and then throws. Nothing of this is written: the stored row is the
  one the first \<^verbatim>\<open>save\<close> wrote, with status \<^verbatim>\<open>PROCESSING\<close>, \<^verbatim>\<open>retryCount\<close> 0 and
  no message.
\<close>

theorem retry_branch_not_persisted:
  "handleSingleSubmission 5 (Inl ''timeout'') 0 envPending =
     (envPending\<lparr>repository := [(createEntity 0 dto1)\<lparr>status := PROCESSING\<rparr>],
                 ledgerCalls := [payload' dto1]\<rparr>, Inl (RetryNeeded 2000))
   \<and> recordFailure ''timeout'' ((createEntity 0 dto1)\<lparr>status := PROCESSING\<rparr>) =
     ((createEntity 0 dto1)\<lparr>status := RETRYING, retryCount := 1, errorMessage := Some ''timeout''\<rparr>,
      Some 2000)"
  by (simp add: envPending_eq handleSingleSubmission_def findOneById_def
      save_def Let_def createEntity_def recordFailure_def backoffDelay_def)

text \<open>
  C4. A stored submission whose incremented count stays below \<^verbatim>\<open>maxRetries\<close>, as
  every created submission is (\<^verbatim>\<open>retryCount\<close> 0, \<^verbatim>\<open>maxRetries\<close> 3), and whose
  every delivery fails: however many deliveries the queue makes, each one ends in the
  retry throw with the same delay, and the stored row is left \<^verbatim>\<open>PROCESSING\<close> with
  its \<^verbatim>\<open>retryCount\<close> unchanged. The count written on the object before the throw is
  never stored, so the next delivery starts from the old count again; the submission is
  never stored as \<^verbatim>\<open>RETRYING\<close> and never reaches \<^verbatim>\<open>FAILED\<close>.
\<close>

theorem failed_deliveries_never_fail:
  assumes "findOneById i (repository env) = Some s"
    and "retryCount s + 1 < maxRetries s"
  shows "failedDeliveries (Suc n) now message i env =
    (env\<lparr>repository := save (s\<lparr>status := PROCESSING\<rparr>) (repository env),
         ledgerCalls := ledgerCalls env @ replicate (Suc n) (payload s)\<rparr>,
     replicate (Suc n) (Inl (RetryNeeded (backoffDelay (retryCount s + 1)))))"
  using assms
proof (induction n arbitrary: env s)
  case 0
  then show ?case by (simp add: handleSingleSubmission_failure)
next
  case (Suc n)
  let ?s1 = "s\<lparr>status := PROCESSING\<rparr>"
  let ?env1 = "env\<lparr>repository := save ?s1 (repository env),
                    ledgerCalls := ledgerCalls env @ [payload s]\<rparr>"
  have ids: "id' s = i" using Suc.prems(1) by (rule findOneById_Some_id)
  have step: "handleSingleSubmission now (Inl message) i env
      = (?env1, Inl (RetryNeeded (backoffDelay (retryCount s + 1))))"
    using Suc.prems by (simp add: handleSingleSubmission_failure)
  have found: "findOneById i (repository ?env1) = Some ?s1"
    using Suc.prems(1) ids by (simp add: findOneById_save)
  have below: "retryCount ?s1 + 1 < maxRetries ?s1"
    using Suc.prems(2) by simp
  have "failedDeliveries (Suc n) now message i ?env1 =
    (?env1\<lparr>repository := save (?s1\<lparr>status := PROCESSING\<rparr>) (repository ?env1),
           ledgerCalls := ledgerCalls ?env1 @ replicate (Suc n) (payload ?s1)\<rparr>,
     replicate (Suc n) (Inl (RetryNeeded (backoffDelay (retryCount ?s1 + 1)))))"
    using found below by (rule Suc.IH)
  then have rest: "failedDeliveries (Suc n) now message i ?env1 =
    (env\<lparr>repository := save ?s1 (repository env),
         ledgerCalls := ledgerCalls env @ replicate (Suc (Suc n)) (payload s)\<rparr>,
     replicate (Suc n) (Inl (RetryNeeded (backoffDelay (retryCount s + 1)))))"
    by (simp add: save_save)
  show ?case
    by (subst failedDeliveries.simps(2)) (simp add: step rest del: failedDeliveries.simps)
qed

text \<open>C4, the theorem at the created submission of \<open>envPending\<close> and four failed
  deliveries, one more than its \<^verbatim>\<open>maxRetries\<close>: four retry throws, and the row is
  \<^verbatim>\<open>PROCESSING\<close> with \<^verbatim>\<open>retryCount\<close> 0.\<close>

theorem failed_deliveries_never_fail_witness:
  "findOneById 0 (repository envPending) = Some (createEntity 0 dto1)
   \<and> retryCount (createEntity 0 dto1) + 1 < maxRetries (createEntity 0 dto1)
   \<and> maxRetries (createEntity 0 dto1) = 3
   \<and> failedDeliveries 4 5 ''timeout'' 0 envPending =
       (envPending\<lparr>repository := [(createEntity 0 dto1)\<lparr>status := PROCESSING\<rparr>],
                   ledgerCalls := [payload' dto1, payload' dto1, payload' dto1, payload' dto1]\<rparr>,
        [Inl (RetryNeeded 2000), Inl (RetryNeeded 2000), Inl (RetryNeeded 2000),
         Inl (RetryNeeded 2000)])
   \<and> map status (repository (fst (failedDeliveries 4 5 ''timeout'' 0 envPending))) = [PROCESSING]
   \<and> map retryCount (repository (fst (failedDeliveries 4 5 ''timeout'' 0 envPending))) = [0]"
proof -
  have h: "findOneById 0 (repository envPending) = Some (createEntity 0 dto1)"
    by (simp add: envPending_eq findOneById_def createEntity_def)
  have r: "retryCount (createEntity 0 dto1) + 1 < maxRetries (createEntity 0 dto1)"
    by (simp add: createEntity_def)
  have m: "maxRetries (createEntity 0 dto1) = 3"
    by (simp add: createEntity_def)
  have four: "(4::nat) = Suc 3" by simp
  have run: "failedDeliveries 4 5 ''timeout'' 0 envPending =
       (envPending\<lparr>repository := [(createEntity 0 dto1)\<lparr>status := PROCESSING\<rparr>],
                   ledgerCalls := [payload' dto1, payload' dto1, payload' dto1, payload' dto1]\<rparr>,
        [Inl (RetryNeeded 2000), Inl (RetryNeeded 2000), Inl (RetryNeeded 2000),
         Inl (RetryNeeded 2000)])"
    unfolding four
    using failed_deliveries_never_fail [OF h r, where n = 3 and now = 5 and message = "''timeout''"]
    by (simp add: envPending_eq save_def createEntity_def backoffDelay_def numeral_3_eq_3)
  show ?thesis using h r m run by (simp add: createEntity_def)
qed

section \<open>Batches\<close>

text \<open>
  C5, at a concrete input. The key \<^verbatim>\<open>key-1\<close> is stored. A batch of three requests
  whose second has that key fails as a whole with the conflict of that item: the first
  request stays created, with its \<^verbatim>\<open>submit-single\<close> job, the third is never
  created, no \<^verbatim>\<open>submit-batch\<close> job is added and the caller receives no records.
\<close>

theorem createBatch_conflict_counterexample:
  "createBatch [dto2, dto1, dto3] envPending =
     (\<lparr>repository = [createEntity 0 dto1, createEntity 1 dto2],
       queue = [SubmitSingle 0, SubmitSingle 1], ledgerCalls = [], nextId = 2\<rparr>,
      Inl (ConflictException ''Submission with idempotency key key-1 already exists''))"
  by (simp add: envPending_eq createBatch_def createSubmission_def findOneByKey_def createEntity_def
      dto1_def dto2_def dto3_def Let_def)

text \<open>
  C5, as the code has it. \<^verbatim>\<open>createBatch\<close> applies \<^verbatim>\<open>createSubmission\<close> to the
  requests in order. When their keys are pairwise different and none is stored, all of
  them are created, pending, each with its \<^verbatim>\<open>submit-single\<close> job, and then exactly
  one \<^verbatim>\<open>submit-batch\<close> job with all their ids, in order, is added. A request whose key
  is stored, or is the key of an earlier request of the batch, fails the whole call
  with its conflict: the requests before it stay created, those after it are not
  created, and no \<^verbatim>\<open>submit-batch\<close> job is added.
\<close>

theorem createBatch_all_or_conflict:
  assumes "distinct (map idempotencyKey' dtos)"
    and "set (map idempotencyKey' dtos) \<inter> set (map idempotencyKey (repository env)) = {}"
  shows "createBatch dtos env =
           ((created dtos env)\<lparr>queue := queue (created dtos env) @
                [SubmitBatch (map id' (createEntities (nextId env) dtos))]\<rparr>,
            Inr (createEntities (nextId env) dtos))
    \<and> (idempotencyKey' dto
          \<in> set (map idempotencyKey' dtos) \<union> set (map idempotencyKey (repository env)) \<longrightarrow>
        createBatch (dtos @ dto # rest) env =
          (created dtos env, Inl (ConflictException (conflictMessage dto))))"
  using assms by (simp add: createBatch_def createEach_ok createEach_conflict)

text \<open>C5, the theorem at two new requests after the stored key \<^verbatim>\<open>key-1\<close>, alone and
  followed by a request with that key.\<close>

theorem createBatch_all_or_conflict_witness:
  "distinct (map idempotencyKey' [dto2, dto3])
   \<and> set (map idempotencyKey' [dto2, dto3]) \<inter> set (map idempotencyKey (repository envPending)) = {}
   \<and> createBatch [dto2, dto3] envPending =
       (\<lparr>repository = [createEntity 0 dto1, createEntity 1 dto2, createEntity 2 dto3],
         queue = [SubmitSingle 0, SubmitSingle 1, SubmitSingle 2, SubmitBatch [1, 2]],
         ledgerCalls = [], nextId = 3\<rparr>,
        Inr [createEntity 1 dto2, createEntity 2 dto3])
   \<and> createBatch ([dto2, dto3] @ dto1 # [dto2]) envPending =
       (\<lparr>repository = [createEntity 0 dto1, createEntity 1 dto2, createEntity 2 dto3],
         queue = [SubmitSingle 0, SubmitSingle 1, SubmitSingle 2],
         ledgerCalls = [], nextId = 3\<rparr>,
        Inl (ConflictException ''Submission with idempotency key key-1 already exists''))"
proof -
  have d: "distinct (map idempotencyKey' [dto2, dto3])"
    by (simp add: dto2_def dto3_def)
  have k: "set (map idempotencyKey' [dto2, dto3]) \<inter> set (map idempotencyKey (repository envPending)) = {}"
    by (simp add: envPending_eq createEntity_def dto1_def dto2_def dto3_def)
  have m: "idempotencyKey' dto1
      \<in> set (map idempotencyKey' [dto2, dto3]) \<union> set (map idempotencyKey (repository envPending))"
    by (simp add: envPending_eq createEntity_def)
  have c: "created [dto2, dto3] envPending =
       \<lparr>repository = [createEntity 0 dto1, createEntity 1 dto2, createEntity 2 dto3],
         queue = [SubmitSingle 0, SubmitSingle 1, SubmitSingle 2],
         ledgerCalls = [], nextId = 3\<rparr>"
    by (simp add: created_def envPending_eq id_createEntity numeral_2_eq_2)
  have n: "nextId envPending = 1"
    by (simp add: envPending_eq)
  show ?thesis
    using d k m createBatch_all_or_conflict [OF d k, where dto = dto1 and rest = "[dto2]"]
    by (simp add: c n conflictMessage_def dto1_def id_createEntity numeral_2_eq_2)
qed

text \<open>
  C6. In \<^verbatim>\<open>handleBatchSubmission\<close>, with the rows' primary keys pairwise different:
  \<^verbatim>\<open>submitBatch\<close> returns one outcome per loaded submission, in their order, the
  hash of the ledger's answer or null where the ledger failed. The \<open>i\<close>-th submission
  is stored completed with the \<open>i\<close>-th hash when that hash is there (it passes the test
  \<^verbatim>\<open>if (txHash)\<close>), and stored failed otherwise, with its \<^verbatim>\<open>retryCount\<close>
  untouched. The handler returns without an error, so the queue redelivers nothing;
  the ledger was called once per submission; no job was added.
\<close>

theorem handleBatchSubmission_outcomes:
  assumes "distinct (map id' (repository env))"
    and "submissions = findByIds submissionIds (repository env)"
    and "txHashes = submitBatch ledger 0 (map payload submissions)"
    and "env' = fst (handleBatchSubmission now ledger submissionIds env)"
    and "i < length submissions"
  shows "length txHashes = length submissions
    \<and> txHashes ! i = (case ledger i of Inr hash \<Rightarrow> Some hash | Inl message \<Rightarrow> None)
    \<and> findOneById (id' (submissions ! i)) (repository env') =
        Some (if truthy (txHashes ! i)
              then (submissions ! i)\<lparr>status := COMPLETED, transactionHash := txHashes ! i,
                                     completedAt := Some now\<rparr>
              else (submissions ! i)\<lparr>status := FAILED,
                                     errorMessage := Some ''Batch submission failed''\<rparr>)
    \<and> snd (handleBatchSubmission now ledger submissionIds env) = Inr ()
    \<and> ledgerCalls env' = ledgerCalls env @ map payload submissions
    \<and> queue env' = queue env"
proof -
  have len: "length txHashes = length submissions"
    using assms(3) by (simp add: length_submitBatch)
  have nth: "txHashes ! i = (case ledger i of Inr hash \<Rightarrow> Some hash | Inl message \<Rightarrow> None)"
    using assms(3,5) by (simp add: nth_submitBatch)
  have d: "distinct (map id' submissions)"
    using assms(1,2) by (simp add: findByIds_distinct)
  have "id' (submissions ! i) \<in> set (map id' submissions)"
    using assms(5) by simp
  then have mem: "id' (submissions ! i) \<in> set (map id' (repository env))"
    using findByIds_subset assms(2) by blast
  have "findOneById (id' (submissions ! i)) (updateEach now submissions txHashes (repository env))
      = Some (updateFromHash now (txHashes ! i) (submissions ! i))"
    using d assms(5) len mem by (rule updateEach_nth)
  moreover have "repository env' = updateEach now submissions txHashes (repository env)"
    using assms(2,3,4) by (simp add: handleBatchSubmission_def Let_def)
  ultimately have row: "findOneById (id' (submissions ! i)) (repository env') =
        Some (if truthy (txHashes ! i)
              then (submissions ! i)\<lparr>status := COMPLETED, transactionHash := txHashes ! i,
                                     completedAt := Some now\<rparr>
              else (submissions ! i)\<lparr>status := FAILED,
                                     errorMessage := Some ''Batch submission failed''\<rparr>)"
    by (simp add: updateFromHash_def)
  have rest: "snd (handleBatchSubmission now ledger submissionIds env) = Inr ()
    \<and> ledgerCalls env' = ledgerCalls env @ map payload submissions \<and> queue env' = queue env"
    using assms(2,4) by (simp add: handleBatchSubmission_def Let_def)
  show ?thesis using len nth row rest by simp
qed

text \<open>C6, the theorem at the batch of three whose second item the ledger refuses: the
  first and the third end completed with the references \<^verbatim>\<open>tx-a\<close> and \<^verbatim>\<open>tx-c\<close>,
  the second ends failed.\<close>

theorem handleBatchSubmission_outcomes_witness:
  "distinct (map id' (repository envThree))
   \<and> findByIds [0, 1, 2] (repository envThree)
        = [createEntity 0 dto1, createEntity 1 dto2, createEntity 2 dto3]
   \<and> submitBatch ledgerSecondFails 0 (map payload (findByIds [0, 1, 2] (repository envThree)))
        = [Some ''tx-a'', None, Some ''tx-c'']
   \<and> findOneById 1 (repository (fst (handleBatchSubmission 9 ledgerSecondFails [0, 1, 2] envThree)))
        = Some ((createEntity 1 dto2)\<lparr>status := FAILED,
                                        errorMessage := Some ''Batch submission failed''\<rparr>)
   \<and> findOneById 2 (repository (fst (handleBatchSubmission 9 ledgerSecondFails [0, 1, 2] envThree)))
        = Some ((createEntity 2 dto3)\<lparr>status := COMPLETED, transactionHash := Some ''tx-c'',
                                        completedAt := Some 9\<rparr>)
   \<and> findOneById 0 (repository (fst (handleBatchSubmission 9 ledgerSecondFails [0, 1, 2] envThree)))
        = Some ((createEntity 0 dto1)\<lparr>status := COMPLETED, transactionHash := Some ''tx-a'',
                                        completedAt := Some 9\<rparr>)
   \<and> snd (handleBatchSubmission 9 ledgerSecondFails [0, 1, 2] envThree) = Inr ()"
proof -
  have d: "distinct (map id' (repository envThree))"
    by (simp add: envThree_eq id_createEntity)
  have f: "findByIds [0, 1, 2] (repository envThree)
      = [createEntity 0 dto1, createEntity 1 dto2, createEntity 2 dto3]"
    by (simp add: envThree_eq findByIds_def id_createEntity)
  have b: "submitBatch ledgerSecondFails 0 (map payload (findByIds [0, 1, 2] (repository envThree)))
        = [Some ''tx-a'', None, Some ''tx-c'']"
    unfolding f by (simp add: ledgerSecondFails_def createEntity_def)
  have l: "(0::nat) < length (findByIds [0, 1, 2] (repository envThree))"
      "(1::nat) < length (findByIds [0, 1, 2] (repository envThree))"
      "(2::nat) < length (findByIds [0, 1, 2] (repository envThree))"
    unfolding f by simp_all
  show ?thesis
    using d f b
      handleBatchSubmission_outcomes [OF d refl refl refl l(1), where ledger = ledgerSecondFails and now = 9]
      handleBatchSubmission_outcomes [OF d refl refl refl l(2), where ledger = ledgerSecondFails and now = 9]
      handleBatchSubmission_outcomes [OF d refl refl refl l(3), where ledger = ledgerSecondFails and now = 9]
    by (simp add: truthy_def id_createEntity)
qed

section \<open>Completed submissions and their reference\<close>

text \<open>
  C7, at a concrete input. The submission of \<open>envCompleted\<close> is completed and has the
  reference \<^verbatim>\<open>tx-1\<close>. After a redelivered \<^verbatim>\<open>submit-single\<close> job whose ledger call
  fails it is \<^verbatim>\<open>PROCESSING\<close>, and after a \<^verbatim>\<open>submit-batch\<close> job whose ledger call
  fails it is \<^verbatim>\<open>FAILED\<close>; in both it still has the reference. A reference does not
  imply the status \<^verbatim>\<open>COMPLETED\<close>.
\<close>

theorem completed_iff_hash_counterexample:
  "map status (repository envCompleted) = [COMPLETED]
   \<and> map transactionHash (repository envCompleted) = [Some ''tx-1'']
   \<and> map status (repository (fst (handleSingleSubmission 6 (Inl ''timeout'') 0 envCompleted)))
        = [PROCESSING]
   \<and> map transactionHash (repository (fst (handleSingleSubmission 6 (Inl ''timeout'') 0 envCompleted)))
        = [Some ''tx-1'']
   \<and> map status (repository (fst (handleBatchSubmission 6 (\<lambda>k. Inl ''timeout'') [0] envCompleted)))
        = [FAILED]
   \<and> map transactionHash
        (repository (fst (handleBatchSubmission 6 (\<lambda>k. Inl ''timeout'') [0] envCompleted)))
        = [Some ''tx-1'']"
  by (simp add: envCompleted_eq completedRow_def handleSingleSubmission_def
      handleBatchSubmission_def findOneById_def findByIds_def save_def Let_def createEntity_def
      recordFailure_def backoffDelay_def updateFromHash_def truthy_def)

text \<open>
  C7, as the code has it. One direction holds after every step: when every completed
  submission has a reference before a \<^verbatim>\<open>submit-single\<close> job, a \<^verbatim>\<open>submit-batch\<close> job
  or a creation, every completed submission has one after it.
\<close>

theorem completed_implies_hash_preserved:
  assumes "completedHasHash (repository env)"
  shows "completedHasHash (repository (fst (handleSingleSubmission now ledger i env)))
    \<and> completedHasHash (repository (fst (handleBatchSubmission now ledgers ids env)))
    \<and> completedHasHash (repository (fst (createSubmission dto env)))"
proof -
  have single: "completedHasHash (repository (fst (handleSingleSubmission now ledger i env)))"
  proof (cases "findOneById i (repository env)")
    case None
    then show ?thesis using assms by (simp add: handleSingleSubmission_unknown)
  next
    case (Some s)
    have p: "completedHasHash (save (s\<lparr>status := PROCESSING\<rparr>) (repository env))"
      using assms by (intro completedHasHash_save) auto
    show ?thesis
    proof (cases ledger)
      case (Inl message)
      then show ?thesis using Some p
        by (simp add: handleSingleSubmission_failure completedHasHash_save)
    next
      case (Inr txHash)
      then show ?thesis using Some p
        by (simp add: handleSingleSubmission_success completedHasHash_save)
    qed
  qed
  have batch: "completedHasHash (repository (fst (handleBatchSubmission now ledgers ids env)))"
    using assms by (simp add: handleBatchSubmission_def Let_def completedHasHash_updateEach)
  have create: "completedHasHash (repository (fst (createSubmission dto env)))"
    using assms
    by (auto simp: createSubmission_def Let_def completedHasHash_def createEntity_def
        split: option.splits)
  show ?thesis using single batch create by simp
qed

text \<open>C7, the theorem at \<open>envCompleted\<close>.\<close>

theorem completed_implies_hash_preserved_witness:
  "completedHasHash (repository envCompleted)
   \<and> completedHasHash (repository (fst (handleSingleSubmission 6 (Inr ''tx-2'') 0 envCompleted)))
   \<and> completedHasHash
        (repository (fst (handleBatchSubmission 6 (\<lambda>k. Inl ''timeout'') [0] envCompleted)))
   \<and> completedHasHash (repository (fst (createSubmission dto2 envCompleted)))"
proof -
  have h: "completedHasHash (repository envCompleted)"
    by (simp add: envCompleted_eq completedRow_def completedHasHash_def)
  show ?thesis
    using h completed_implies_hash_preserved [OF h] by simp
qed

section \<open>Reads\<close>

text \<open>
  C8. On a state with no submission of id 9 and none of key \<^verbatim>\<open>key-9\<close>:
  \<^verbatim>\<open>getSubmission\<close> throws \<^verbatim>\<open>NotFoundException\<close>, and
  \<^verbatim>\<open>getByIdempotencyKey\<close> returns null to its caller, with no exception.
\<close>

theorem getByIdempotencyKey_missing_returns_null:
  "getByIdempotencyKey ''key-9'' envPending = None
   \<and> getSubmission 9 envPending = Inl (NotFoundException 9)"
  by (simp add: envPending_eq getByIdempotencyKey_def getSubmission_def findOneByKey_def
      findOneById_def createEntity_def dto1_def)

section \<open>Backoff\<close>

text \<open>
  C9. A failed delivery that is to be retried, with the incremented count
  \<open>r = retryCount s + 1\<close> below \<^verbatim>\<open>maxRetries\<close>, throws the error whose delay is
  \<open>2 ^ r * 1000\<close> milliseconds, and this delay is strictly increasing in \<open>r\<close>. (The
  naturals here are the doubles of the code for every \<open>r\<close> up to 1014, where
  \<open>2 ^ r * 1000\<close> is still exact and finite.)
\<close>

theorem backoff_delay_exponential:
  "(findOneById i (repository env) = Some s \<and> retryCount s + 1 < maxRetries s \<longrightarrow>
      snd (handleSingleSubmission now (Inl message) i env)
        = Inl (RetryNeeded (2 ^ (retryCount s + 1) * 1000)))
   \<and> backoffDelay r = 2 ^ r * 1000
   \<and> (r < r' \<longrightarrow> backoffDelay r < backoffDelay r')"
  by (simp add: handleSingleSubmission_failure backoffDelay_def)

text \<open>C9, the theorem at the first failed delivery of a fresh submission: two seconds,
  and less than the four seconds of the next count.\<close>

theorem backoff_delay_exponential_witness:
  "findOneById 0 (repository envPending) = Some (createEntity 0 dto1)
   \<and> retryCount (createEntity 0 dto1) + 1 < maxRetries (createEntity 0 dto1)
   \<and> snd (handleSingleSubmission 5 (Inl ''timeout'') 0 envPending) = Inl (RetryNeeded 2000)
   \<and> backoffDelay 1 = 2000 \<and> backoffDelay 2 = 4000 \<and> backoffDelay 1 < backoffDelay 2"
proof -
  have h: "findOneById 0 (repository envPending) = Some (createEntity 0 dto1)"
    by (simp add: envPending_eq findOneById_def createEntity_def)
  have r: "retryCount (createEntity 0 dto1) + 1 < maxRetries (createEntity 0 dto1)"
    by (simp add: createEntity_def)
  show ?thesis
    using h r backoff_delay_exponential [where i = 0 and env = envPending
        and s = "createEntity 0 dto1" and now = 5 and message = "''timeout''" and r = 1 and r' = 2]
      backoff_delay_exponential [where r = 2]
    by (simp add: createEntity_def)
qed

section \<open>Listing\<close>

text \<open>
  C10. \<^verbatim>\<open>listSubmissions\<close> without a status returns at most 100 submissions, the first
  100 rows of the table; with a status it returns every submission of that status, with
  no limit.
\<close>

theorem listSubmissions_cap:
  "length (listSubmissions None env) \<le> 100
   \<and> listSubmissions None env = take 100 (repository env)
   \<and> listSubmissions (Some s) env = filter (\<lambda>r. status r = s) (repository env)"
  by (simp add: listSubmissions_def)

end
